theory Spec2Isabelle
  imports Main "HOL-Library.Word" "HOL-Library.Multiset" "HOL-Library.AList"
begin

section \<open>Library types used by both packages\<close>

text \<open>
  Go's \<open>int64\<close> and \<open>uint32\<close> are machine words; \<open>strconv.FormatInt\<close> and
  \<open>strconv.FormatUint\<close> print them in base 10.
\<close>

type_synonym int64 = "64 word"
type_synonym uint32 = "32 word"

definition digit_char :: "nat \<Rightarrow> char" where
  "digit_char d = ''0123456789'' ! d"

function FormatUint :: "nat \<Rightarrow> string" where
  "FormatUint n =
     (if n < 10 then [digit_char n] else FormatUint (n div 10) @ [digit_char (n mod 10)])"
  by pat_completeness auto
termination
  by (relation "measure (\<lambda>n. n)") auto

definition FormatInt :: "int \<Rightarrow> string" where
  "FormatInt i = (if i < 0 then CHR ''-'' # FormatUint (nat (- i)) else FormatUint (nat i))"

text \<open>\<open>strings.Join(elems, sep)\<close>.\<close>

fun Join :: "string list \<Rightarrow> string \<Rightarrow> string" where
  "Join [] sep = []"
| "Join [x] sep = x"
| "Join (x # y # ys) sep = x @ sep @ Join (y # ys) sep"

text \<open>
  \<open>url.Values\<close> is a \<open>map[string][]string\<close>: \<open>Set\<close> replaces the values of a key,
  \<open>Add\<close> appends to them.
\<close>

type_synonym Values = "string \<rightharpoonup> string list"

definition Set :: "Values \<Rightarrow> string \<Rightarrow> string \<Rightarrow> Values" where
  "Set v key val = v(key \<mapsto> [val])"

definition Add :: "Values \<Rightarrow> string \<Rightarrow> string \<Rightarrow> Values" where
  "Add v key val = v(key \<mapsto> (case v key of None \<Rightarrow> [] | Some vs \<Rightarrow> vs) @ [val])"

text \<open>
  One HTTP request of the JSON client: the verb, the URI and the form or query
  parameters. The client itself (\<open>lib/http\<close>) is outside the sources; every function
  that calls it takes the outcome of the call as an argument: \<open>Inl\<close> the error of
  \<open>Post\<close>/\<open>Get\<close>, \<open>Inr\<close> the decoded response body.
\<close>

record request =
  verb :: string
  uri :: string
  params :: Values

text \<open>
  The Go \<open>error\<close> values that occur: a code of the error-code package
  (\<open>ecode.Int(n)\<close>), an error of the HTTP client, and the client's \<open>ErrDuplication\<close>.
  A returned \<open>error\<close> is \<open>None\<close> for \<open>nil\<close>.
\<close>

datatype error = Ecode int | HTTPErr string | ErrDuplication

text \<open>
  The named codes of the error-code package. The package is outside the sources, so the
  functions take its constants as a parameter; \<open>Equal\<close> between codes is equality.
\<close>

record ecodes =
  OK :: int
  NotModified :: int
  NothingFound :: int
  Conflict :: int
  ServerErr :: int

text \<open>A panic of the Go runtime or of the code itself.\<close>

datatype panic = IndexOutOfRange | InvalidArgument | DivideByZero

section \<open>Peer node (registry/node.go)\<close>

text \<open>
  \<open>model.Instance\<close>, with the fields that \<open>call\<close> reads. \<open>Metadata\<close> is a
  \<open>map[string]string\<close>, \<open>None\<close> when nil; \<open>Status\<close> is an unsigned number that
  \<open>call\<close> widens to \<open>uint64\<close>. \<open>json.Marshal\<close> of the metadata is a parameter
  \<open>json_Marshal\<close> of the functions that call it.
\<close>

type_synonym metadata = "(string \<times> string) list option"

record Instance =
  Zone :: string
  Env :: string
  AppID :: string
  Hostname :: string
  Addrs :: "string list"
  Status :: uint32
  Color :: string
  Version :: string
  Metadata :: metadata
  RegTimestamp :: int64
  DirtyTimestamp :: int64
  LatestTimestamp :: int64

datatype NodeStatus = NodeStatusUP | NodeStatusLost



record Node =
  pRegisterURL :: string
  registerURL :: string
  cancelURL :: string
  renewURL :: string
  setURL :: string
  addr :: string
  status :: NodeStatus
  zone :: string
  otherZone :: bool









definition Node_Renew :: "Node \<Rightarrow> Instance \<Rightarrow> request list \<times> error option" where
  "Node_Renew n i = ([], None)"

text \<open>Whether one of the requests carries the form field \<open>key=val\<close>.\<close>

definition carries :: "request list \<Rightarrow> string \<Rightarrow> string \<Rightarrow> bool" where
  "carries reqs key val = list_ex (\<lambda>r. params r key = Some [val]) reqs"

section \<open>Client (package naming)\<close>

subsection \<open>Data\<close>

record Config =
  cfg_Domain :: string
  cfg_Zone :: string
  cfg_Env :: string
  cfg_Host :: string

text \<open>
  \<open>naming.Instance\<close>, with the fields that the client reads. The instances of a poll
  response have the same type.
\<close>

record naming_Instance =
  ins_AppID :: string
  ins_Addrs :: "string list"
  ins_Color :: string
  ins_Version :: string
  ins_Metadata :: metadata

text \<open>
  A \<open>map[string][]*Instance\<close> is a list of its entries; the order of the list is the
  order in which a \<open>range\<close> loop visits them. The keys of a Go map are distinct.
\<close>

type_synonym zone_instances = "(string \<times> naming_Instance list) list"

record appData =
  ZoneInstances :: zone_instances
  LastTs :: int64

text \<open>
  \<open>appInfo\<close>. The \<open>event\<close> channel (capacity 1) is its identity and the number of
  signals it holds; \<open>zoneIns\<close> is the \<open>atomic.Value\<close>, \<open>None\<close> until the first
  \<open>Store\<close>. Every \<open>appInfo\<close> is reachable from one key of \<open>apps\<close> only (\<open>Watch\<close>
  allocates a new one per key), so the map holds the values themselves.
\<close>

record appInfo =
  event :: nat
  event_len :: nat
  zoneIns :: "zone_instances option"
  lastTs :: int64

text \<open>
  \<open>Discovery\<close>. \<open>closed\<close> says that the root context \<open>d.ctx\<close> is cancelled; a child
  context made by \<open>context.WithCancel(d.ctx)\<close> is a number, cancelled when it is in
  \<open>cancelled\<close> or the root is. \<open>fresh\<close> numbers the channels and contexts allocated so
  far, \<open>once\<close> says that \<open>d.once\<close> has run (the server loop is started), \<open>renewers\<close>
  are the renew tasks spawned by \<open>Register\<close>, \<open>closed_events\<close> the event channels
  closed by the server loop.
\<close>

record Discovery =
  config :: Config
  closed :: bool
  once :: bool
  apps :: "(string \<times> appInfo) list"
  registry :: "string set"
  lastHost :: string
  cancelPolls :: "nat option"
  delete_chan :: "appInfo list"
  cancelled :: "nat set"
  fresh :: nat
  renewers :: "(nat \<times> naming_Instance) list"
  closed_events :: "nat list"

text \<open>The response bodies the client decodes.\<close>

record reply =
  reply_Code :: int
  Message :: string

record nodes_res =
  nodes_Code :: int
  nodes_Data :: "string list"

record polls_res =
  polls_Code :: int
  polls_Data :: "(string \<times> appData) list"

subsection \<open>Construction and configuration\<close>

text \<open>The process environment read by \<open>fixConfig\<close>.\<close>

record os_env =
  env_ZONE :: string
  env_DEPLOY_ENV :: string
  os_Hostname :: string

definition fixConfig :: "os_env \<Rightarrow> Config \<Rightarrow> Config" where
  "fixConfig os c =
    (let c = (if cfg_Zone c = [] then c\<lparr>cfg_Zone := env_ZONE os\<rparr> else c);
         c = (if cfg_Env c = [] then c\<lparr>cfg_Env := env_DEPLOY_ENV os\<rparr> else c)
     in if cfg_Host c = [] then c\<lparr>cfg_Host := os_Hostname os\<rparr> else c)"

definition New :: "os_env \<Rightarrow> Config \<Rightarrow> Discovery" where
  "New os c =
     \<lparr> config = fixConfig os c, closed = False, once = False, apps = [], registry = {},
       lastHost = [], cancelPolls = None, delete_chan = [], cancelled = {}, fresh = 0,
       renewers = [], closed_events = [] \<rparr>"

definition Reload :: "os_env \<Rightarrow> Discovery \<Rightarrow> Config \<Rightarrow> Discovery" where
  "Reload os d c = d\<lparr>config := fixConfig os c\<rparr>"

definition Close :: "Discovery \<Rightarrow> Discovery \<times> error option" where
  "Close d = (d\<lparr>closed := True\<rparr>, None)"

definition Scheme :: "Discovery \<Rightarrow> string" where
  "Scheme d = ''discovery''"

subsection \<open>Fetch, Unwatch, Watch\<close>

text \<open>
  \<open>Fetch\<close> returns \<open>(ins, ok)\<close>; \<open>ins\<close> is \<open>None\<close> for the nil map. The type
  assertion on \<open>zoneIns.Load()\<close> fails on the nil interface of an empty value.
\<close>

definition Fetch :: "Discovery \<Rightarrow> string \<Rightarrow> zone_instances option \<times> bool" where
  "Fetch d appID =
    (case map_of (apps d) appID of
       None \<Rightarrow> (None, False)
     | Some app \<Rightarrow>
         (case zoneIns app of
            None \<Rightarrow> (None, False)
          | Some ins \<Rightarrow> (Some ins, True)))"

text \<open>
  \<open>Unwatch\<close> sends the removed \<open>appInfo\<close> on \<open>d.delete\<close>. The channel has room for
  10 and the send blocks when it is full; the model does not bound it.
\<close>

definition Unwatch :: "Discovery \<Rightarrow> string \<Rightarrow> Discovery" where
  "Unwatch d appID =
    (case map_of (apps d) appID of
       None \<Rightarrow> d
     | Some app \<Rightarrow>
         d\<lparr>apps := AList.delete appID (apps d), delete_chan := delete_chan d @ [app]\<rparr>)"

text \<open>\<open>Watch\<close> returns the event channel of the app.\<close>

definition Watch :: "Discovery \<Rightarrow> string \<Rightarrow> Discovery \<times> nat" where
  "Watch d appID =
    (case map_of (apps d) appID of
       Some app \<Rightarrow> (d\<lparr>once := True\<rparr>, event app)
     | None \<Rightarrow>
         (let app = \<lparr> event = fresh d, event_len = 0, zoneIns = None, lastTs = 0 \<rparr>;
              d = d\<lparr>apps := AList.update appID app (apps d), fresh := Suc (fresh d)\<rparr>;
              cancel = cancelPolls d;
              d = (case cancel of
                     None \<Rightarrow> d
                   | Some k \<Rightarrow> d\<lparr>cancelled := insert k (cancelled d)\<rparr>)
          in (d\<lparr>once := True\<rparr>, event app)))"

subsection \<open>Self-registration\<close>

definition newParams :: "Config \<Rightarrow> Values" where
  "newParams c =
    (let params = Set Map.empty ''zone'' (cfg_Zone c);
         params = Set params ''env'' (cfg_Env c)
     in Set params ''hostname'' (cfg_Host c))"

definition statusUP :: string where "statusUP = ''1''"

text \<open>
  The error of a \<open>{code, message}\<close> response: the outcome of \<open>Post\<close>, then the code
  compared with \<open>ecode.OK\<close>.
\<close>

definition reply_err :: "ecodes \<Rightarrow> error + reply \<Rightarrow> error option" where
  "reply_err E res =
    (case res of
       Inl e \<Rightarrow> Some e
     | Inr r \<Rightarrow> if reply_Code r \<noteq> OK E then Some (Ecode (reply_Code r)) else None)"

definition register ::
  "ecodes \<Rightarrow> (metadata \<Rightarrow> string) \<Rightarrow> Discovery \<Rightarrow> naming_Instance \<Rightarrow> error + reply \<Rightarrow>
   request \<times> error option" where
  "register E json_Marshal d ins res =
    (let c = config d;
         metadata = (case ins_Metadata ins of
                       None \<Rightarrow> []
                     | Some m \<Rightarrow> json_Marshal (ins_Metadata ins));
         u = ''http://'' @ cfg_Domain c @ ''/discovery/register'';
         params = newParams c;
         params = Set params ''appid'' (ins_AppID ins);
         params = Set params ''addrs'' (Join (ins_Addrs ins) '','');
         params = Set params ''color'' (ins_Color ins);
         params = Set params ''version'' (ins_Version ins);
         params = Set params ''status'' statusUP;
         params = Set params ''metadata'' metadata
     in (\<lparr> verb = ''POST'', uri = u, params = params \<rparr>, reply_err E res))"

definition renew ::
  "ecodes \<Rightarrow> Discovery \<Rightarrow> naming_Instance \<Rightarrow> error + reply \<Rightarrow> request \<times> error option" where
  "renew E d ins res =
    (let c = config d;
         u = ''http://'' @ cfg_Domain c @ ''/discovery/renew'';
         params = newParams c;
         params = Set params ''appid'' (ins_AppID ins)
     in (\<lparr> verb = ''POST'', uri = u, params = params \<rparr>, reply_err E res))"

definition cancel ::
  "ecodes \<Rightarrow> Discovery \<Rightarrow> naming_Instance \<Rightarrow> error + reply \<Rightarrow> request \<times> error option" where
  "cancel E d ins res =
    (let c = config d;
         u = ''http://'' @ cfg_Domain c @ ''/discovery/cancel'';
         params = newParams c;
         params = Set params ''appid'' (ins_AppID ins)
     in (\<lparr> verb = ''POST'', uri = u, params = params \<rparr>, reply_err E res))"

text \<open>
  \<open>Register\<close>: the new state, the requests sent, the cancel function (the context of
  the renew task that it cancels) and the error. \<open>res\<close> is the outcome of the
  \<open>Post\<close> of \<open>register\<close>.
\<close>

definition Register ::
  "ecodes \<Rightarrow> (metadata \<Rightarrow> string) \<Rightarrow> Discovery \<Rightarrow> naming_Instance \<Rightarrow> error + reply \<Rightarrow>
   Discovery \<times> request list \<times> nat option \<times> error option" where
  "Register E json_Marshal d ins res =
    (if ins_AppID ins \<in> registry d then (d, [], None, Some ErrDuplication)
     else
       (let d = d\<lparr>registry := insert (ins_AppID ins) (registry d)\<rparr>;
            ctx = fresh d;
            d = d\<lparr>fresh := Suc (fresh d)\<rparr>
        in case register E json_Marshal d ins res of
             (req, Some err) \<Rightarrow>
               (d\<lparr>registry := registry d - {ins_AppID ins},
                  cancelled := insert ctx (cancelled d)\<rparr>, [req], None, Some err)
           | (req, None) \<Rightarrow>
               (d\<lparr>renewers := (ctx, ins) # renewers d\<rparr>, [req], Some ctx, None)))"

subsection \<open>Nodes and polls\<close>

definition nodes :: "ecodes \<Rightarrow> Discovery \<Rightarrow> error + nodes_res \<Rightarrow> request \<times> string list" where
  "nodes E d res =
    (let c = config d;
         req = \<lparr> verb = ''GET'', uri = ''http://'' @ cfg_Domain c @ ''/discovery/nodes'',
                 params = Map.empty \<rparr>
     in case res of
          Inl e \<Rightarrow> (req, [])
        | Inr r \<Rightarrow>
            if nodes_Code r \<noteq> OK E then (req, [])
            else if length (nodes_Data r) = 0 then (req, [])
            else (req, nodes_Data r))"

text \<open>
  The loop of \<open>polls\<close> over \<open>d.apps\<close>: the apps with their timestamps reset when the
  host changed, the app ids and the timestamps, in the order of the visit.
\<close>

fun polls_range ::
  "bool \<Rightarrow> (string \<times> appInfo) list \<Rightarrow> (string \<times> appInfo) list \<times> string list \<times> int64 list" where
  "polls_range changed [] = ([], [], [])"
| "polls_range changed ((k, v) # rest) =
    (let v = (if changed then v\<lparr>lastTs := 0\<rparr> else v)
     in case polls_range changed rest of
          (rest', appIDs, lastTss) \<Rightarrow> ((k, v) # rest', k # appIDs, lastTs v # lastTss))"

definition polls_params :: "Config \<Rightarrow> string list \<Rightarrow> int64 list \<Rightarrow> Values" where
  "polls_params c appIDs lastTss =
    (let params = Set Map.empty ''env'' (cfg_Env c);
         params = Set params ''hostname'' (cfg_Host c);
         params = foldl (\<lambda>p appid. Add p ''appid'' appid) params appIDs
     in foldl (\<lambda>p ts. Add p ''latest_timestamp'' (FormatInt (sint ts))) params lastTss)"

text \<open>
  \<open>polls\<close>: the new state, the request if one is sent, the returned \<open>apps\<close> (\<open>None\<close>
  for nil) and the error. \<open>res\<close> is the outcome of \<open>d.httpClient.Get\<close>.
\<close>

definition polls ::
  "ecodes \<Rightarrow> Discovery \<Rightarrow> string \<Rightarrow> error + polls_res \<Rightarrow>
   Discovery \<times> request option \<times> (string \<times> appData) list option \<times> error option" where
  "polls E d host res =
    (let changed = (host \<noteq> lastHost d);
         d = (if changed then d\<lparr>lastHost := host\<rparr> else d);
         c = config d
     in case polls_range changed (apps d) of
          (apps', appIDs, lastTss) \<Rightarrow>
            (let d = d\<lparr>apps := apps'\<rparr>
             in if length appIDs = 0 then (d, None, None, None)
                else
                  (let req = \<lparr> verb = ''GET'', uri = ''http://'' @ host @ ''/discovery/polls'',
                               params = polls_params c appIDs lastTss \<rparr>
                   in case res of
                        Inl e \<Rightarrow> (d, Some req, None, Some e)
                      | Inr r \<Rightarrow>
                          if polls_Code r \<noteq> OK E then
                            (if polls_Code r \<noteq> NotModified E
                             then (d, Some req, None, Some (Ecode (polls_Code r)))
                             else (d, Some req, None, None))
                          else if list_ex (\<lambda>(appID, app). LastTs app = 0) (polls_Data r)
                          then (d, Some req, None, Some (Ecode (ServerErr E)))
                          else (d, Some req, Some (polls_Data r), None))))"

subsection \<open>Broadcast\<close>

text \<open>
  The inner loop of \<open>broadcast\<close> over the entries of \<open>v.ZoneInstances\<close>: the map with
  the visited empty zones deleted, and the count \<open>cnt\<close>.
\<close>

fun broadcast_zones :: "zone_instances \<Rightarrow> zone_instances \<Rightarrow> nat \<Rightarrow> zone_instances \<times> nat" where
  "broadcast_zones [] m cnt = (m, cnt)"
| "broadcast_zones ((z, ins) # rest) m cnt =
     broadcast_zones rest (if length ins = 0 then AList.delete z m else m) (cnt + length ins)"

text \<open>The non-blocking send on the event channel of capacity 1.\<close>

definition send_event :: "appInfo \<Rightarrow> appInfo" where
  "send_event app = (if event_len app < 1 then app\<lparr>event_len := event_len app + 1\<rparr> else app)"

fun broadcast :: "Discovery \<Rightarrow> (string \<times> appData) list \<Rightarrow> Discovery" where
  "broadcast d [] = d"
| "broadcast d ((appID, v) # rest) =
    (case broadcast_zones (ZoneInstances v) (ZoneInstances v) 0 of
       (zi, cnt) \<Rightarrow>
         if cnt = 0 then broadcast d rest
         else
           (case map_of (apps d) appID of
              Some app \<Rightarrow>
                broadcast
                  (d\<lparr>apps := AList.update appID
                       (send_event (app\<lparr>lastTs := LastTs v, zoneIns := Some zi\<rparr>)) (apps d)\<rparr>)
                  rest
            | None \<Rightarrow> broadcast d rest))"

subsection \<open>Shuffle\<close>

text \<open>
  The random source \<open>r\<close>: its state is threaded through the draws. \<open>math/rand\<close> is
  outside the sources, so the two draws are parameters; both return a number in
  \<open>[0, n)\<close> when \<open>n > 0\<close>, which is the only way \<open>shuffle\<close> calls them.
\<close>

record 'r rand =
  Int63n :: "'r \<Rightarrow> int \<Rightarrow> int \<times> 'r"
  Int31n :: "'r \<Rightarrow> int \<Rightarrow> int \<times> 'r"

text \<open>
  A Go \<open>int\<close> is 64 bits wide, so \<open>int64(i + 1)\<close> keeps the value; \<open>int32(i + 1)\<close>
  narrows and wraps.
\<close>

definition int32 :: "int \<Rightarrow> int" where
  "int32 x = sint (word_of_int x :: 32 word)"

text \<open>
  The two loops of \<open>shuffle\<close>. \<open>swap\<close> acts on a state \<open>'s\<close> and may panic. The first
  loop returns the \<open>i\<close> at which it stops.
\<close>

function shuffle_loop63 ::
  "'r rand \<Rightarrow> (int \<Rightarrow> int \<Rightarrow> 's \<Rightarrow> panic + 's) \<Rightarrow> int \<Rightarrow> 'r \<Rightarrow> 's \<Rightarrow> panic + (int \<times> 'r \<times> 's)" where
  "shuffle_loop63 R swap i r s =
    (if i > 2 ^ 31 - 1 - 1 then
       (case Int63n R r (i + 1) of
          (j, r') \<Rightarrow>
            (case swap i j s of
               Inl p \<Rightarrow> Inl p
             | Inr s' \<Rightarrow> shuffle_loop63 R swap (i - 1) r' s'))
     else Inr (i, r, s))"
  by pat_completeness auto
termination
  by (relation "measure (\<lambda>(R, swap, i, r, s). nat i)") auto

function shuffle_loop31 ::
  "'r rand \<Rightarrow> (int \<Rightarrow> int \<Rightarrow> 's \<Rightarrow> panic + 's) \<Rightarrow> int \<Rightarrow> 'r \<Rightarrow> 's \<Rightarrow> panic + ('r \<times> 's)" where
  "shuffle_loop31 R swap i r s =
    (if i > 0 then
       (case Int31n R r (int32 (i + 1)) of
          (j, r') \<Rightarrow>
            (case swap i j s of
               Inl p \<Rightarrow> Inl p
             | Inr s' \<Rightarrow> shuffle_loop31 R swap (i - 1) r' s'))
     else Inr (r, s))"
  by pat_completeness auto
termination
  by (relation "measure (\<lambda>(R, swap, i, r, s). nat i)") auto

declare shuffle_loop63.simps [simp del] shuffle_loop31.simps [simp del]

definition shuffle ::
  "'r rand \<Rightarrow> int \<Rightarrow> (int \<Rightarrow> int \<Rightarrow> 's \<Rightarrow> panic + 's) \<Rightarrow> 'r \<Rightarrow> 's \<Rightarrow> panic + ('r \<times> 's)" where
  "shuffle R n swap r s =
    (if n < 0 then Inl InvalidArgument
     else
       (case shuffle_loop63 R swap (n - 1) r s of
          Inl p \<Rightarrow> Inl p
        | Inr (i, r', s') \<Rightarrow> shuffle_loop31 R swap i r' s'))"

text \<open>
  The closure that the server loop passes to \<open>shuffle\<close>:
  \<open>nodes[i], nodes[j] = nodes[j], nodes[i]\<close>, which panics on an index out of range.
\<close>

definition swap_nodes :: "int \<Rightarrow> int \<Rightarrow> 'a list \<Rightarrow> panic + 'a list" where
  "swap_nodes i j ns =
    (if 0 \<le> i \<and> i < int (length ns) \<and> 0 \<le> j \<and> j < int (length ns)
     then Inr (ns[nat i := ns ! nat j, nat j := ns ! nat i])
     else Inl IndexOutOfRange)"

text \<open>A \<open>swap\<close> that records the index pairs it is called with, in order.\<close>

definition record_swap :: "int \<Rightarrow> int \<Rightarrow> (int \<times> int) list \<Rightarrow> panic + (int \<times> int) list" where
  "record_swap i j calls = Inr (calls @ [(i, j)])"

text \<open>The calls of a record replayed, in order, on a \<open>swap\<close> and its state.\<close>

fun apply_swaps :: "(int \<Rightarrow> int \<Rightarrow> 's \<Rightarrow> panic + 's) \<Rightarrow> (int \<times> int) list \<Rightarrow> 's \<Rightarrow> panic + 's" where
  "apply_swaps swap [] s = Inr s"
| "apply_swaps swap ((i, j) # calls) s =
    (case swap i j s of
       Inl p \<Rightarrow> Inl p
     | Inr s' \<Rightarrow> apply_swaps swap calls s')"

subsection \<open>The server loop\<close>

text \<open>The variables of \<open>serverproc\<close>.\<close>

record loop_state =
  l_retry :: int
  l_update :: bool
  l_nodes :: "string list"
  l_idx :: "64 word"
  l_ctx :: "nat option"

text \<open>
  The \<open>select\<close> of one iteration. \<open>tick\<close> says that the ticker has fired; \<open>pick\<close> is
  the runtime's choice, which counts when the picked case is ready. The default case
  runs when no case is ready.
\<close>

datatype select_case = Case_Done | Case_Tick | Case_Delete | Case_Default

definition select_ready :: "Discovery \<Rightarrow> bool \<Rightarrow> select_case list" where
  "select_ready d tick =
     (if closed d then [Case_Done] else []) @
     (if tick then [Case_Tick] else []) @
     (if delete_chan d \<noteq> [] then [Case_Delete] else [])"

definition select :: "Discovery \<Rightarrow> bool \<Rightarrow> select_case \<Rightarrow> select_case" where
  "select d tick pick =
    (case select_ready d tick of
       [] \<Rightarrow> Case_Default
     | c # cs \<Rightarrow> if pick \<in> set (c # cs) then pick else c)"

text \<open>
  Lines 354 to 368: the refresh of the node list. The result says whether the loop
  continues with its next iteration at once, and gives the requests sent.
\<close>

definition serverproc_refresh ::
  "ecodes \<Rightarrow> 'r rand \<Rightarrow> Discovery \<Rightarrow> loop_state \<Rightarrow> 'r \<Rightarrow> error + nodes_res \<Rightarrow>
   panic + (bool \<times> loop_state \<times> 'r \<times> request list)" where
  "serverproc_refresh E R d l r nres =
    (if length (l_nodes l) = 0 \<or> l_update l then
       (let l = l\<lparr>l_update := False\<rparr>
        in case nodes E d nres of
             (req, tnodes) \<Rightarrow>
               if length tnodes = 0 then Inr (True, l\<lparr>l_retry := l_retry l + 1\<rparr>, r, [req])
               else
                 (let l = l\<lparr>l_retry := 0, l_nodes := tnodes\<rparr>
                  in case shuffle R (int (length (l_nodes l))) swap_nodes r (l_nodes l) of
                       Inl p \<Rightarrow> Inl p
                     | Inr (r', ns) \<Rightarrow> Inr (False, l\<lparr>l_nodes := ns\<rparr>, r', [req])))
     else Inr (False, l, r, []))"

text \<open>
  Lines 369 to 381: the poll of the node at \<open>idx % len(nodes)\<close> and the broadcast.
  \<open>ctx.Err()\<close> is \<open>Canceled\<close> when the context of the loop or the root is cancelled.
\<close>

definition ctx_canceled :: "Discovery \<Rightarrow> nat option \<Rightarrow> bool" where
  "ctx_canceled d k = (closed d \<or> (case k of None \<Rightarrow> False | Some c \<Rightarrow> c \<in> cancelled d))"

definition serverproc_poll ::
  "ecodes \<Rightarrow> Discovery \<Rightarrow> loop_state \<Rightarrow> error + polls_res \<Rightarrow>
   panic + (Discovery \<times> loop_state \<times> request list)" where
  "serverproc_poll E d l pres =
    (if length (l_nodes l) = 0 then Inl DivideByZero
     else
       (case polls E d (l_nodes l ! (unat (l_idx l) mod length (l_nodes l))) pres of
          (d, req, aps, err) \<Rightarrow>
            (let reqs = (case req of None \<Rightarrow> [] | Some q \<Rightarrow> [q])
             in case err of
                  Some e \<Rightarrow>
                    if ctx_canceled d (l_ctx l) then Inr (d, l\<lparr>l_ctx := None\<rparr>, reqs)
                    else Inr (d, l\<lparr>l_idx := l_idx l + 1, l_retry := l_retry l + 1\<rparr>, reqs)
                | None \<Rightarrow>
                    Inr (broadcast d (case aps of None \<Rightarrow> [] | Some a \<Rightarrow> a),
                         l\<lparr>l_retry := 0\<rparr>, reqs))))"

text \<open>
  Lines 354 to 381 together: the refresh, then the poll unless the refresh continued
  with the next iteration.
\<close>

definition serverproc_body ::
  "ecodes \<Rightarrow> 'r rand \<Rightarrow> Discovery \<Rightarrow> loop_state \<Rightarrow> 'r \<Rightarrow> error + nodes_res \<Rightarrow> error + polls_res \<Rightarrow>
   panic + (bool \<times> Discovery \<times> loop_state \<times> 'r \<times> request list)" where
  "serverproc_body E R d l r nres pres =
    (case serverproc_refresh E R d l r nres of
       Inl p \<Rightarrow> Inl p
     | Inr (cont, l, r, reqs) \<Rightarrow>
         if cont then Inr (False, d, l, r, reqs)
         else
           (case serverproc_poll E d l pres of
              Inl p \<Rightarrow> Inl p
            | Inr (d, l, reqs') \<Rightarrow> Inr (False, d, l, r, reqs @ reqs')))"

text \<open>
  One iteration of the loop of \<open>serverproc\<close>: whether the loop returns, the client and
  the loop variables, the random source and the requests sent. \<open>nres\<close> and \<open>pres\<close>
  are the outcomes of the \<open>Get\<close> of \<open>nodes\<close> and of \<open>polls\<close>.
\<close>

definition serverproc_iter ::
  "ecodes \<Rightarrow> 'r rand \<Rightarrow> Discovery \<Rightarrow> loop_state \<Rightarrow> 'r \<Rightarrow> bool \<Rightarrow> select_case \<Rightarrow>
   error + nodes_res \<Rightarrow> error + polls_res \<Rightarrow>
   panic + (bool \<times> Discovery \<times> loop_state \<times> 'r \<times> request list)" where
  "serverproc_iter E R d l r tick pick nres pres =
    (let (d, l) = (case l_ctx l of
                     None \<Rightarrow> (d\<lparr>cancelPolls := Some (fresh d), fresh := Suc (fresh d)\<rparr>,
                              l\<lparr>l_ctx := Some (fresh d)\<rparr>)
                   | Some k \<Rightarrow> (d, l))
     in case select d tick pick of
          Case_Done \<Rightarrow> Inr (True, d, l, r, [])
        | Case_Tick \<Rightarrow> serverproc_body E R d (l\<lparr>l_update := True\<rparr>) r nres pres
        | Case_Delete \<Rightarrow>
            serverproc_body E R
              (d\<lparr>delete_chan := tl (delete_chan d),
                 closed_events := closed_events d @ [event (hd (delete_chan d))]\<rparr>)
              l r nres pres
        | Case_Default \<Rightarrow> serverproc_body E R d l r nres pres)"

section \<open>Concrete values\<close>

text \<open>Concrete values used in the examples below.\<close>

definition ecodes0 :: ecodes where
  "ecodes0 = \<lparr> OK = 0, NotModified = -304, NothingFound = -404, Conflict = -409, ServerErr = -500 \<rparr>"

definition marshal0 :: "metadata \<Rightarrow> string" where
  "marshal0 m = (case m of None \<Rightarrow> ''null'' | Some kvs \<Rightarrow> ''{'' @ Join (map (\<lambda>(k, v). k @ '':'' @ v) kvs) '','' @ ''}'')"




definition os0 :: os_env where
  "os0 = \<lparr> env_ZONE = ''sh1'', env_DEPLOY_ENV = ''test'', os_Hostname = ''host1'' \<rparr>"

definition config0 :: Config where
  "config0 = \<lparr> cfg_Domain = ''127.0.0.1:7171'', cfg_Zone = ''sh1'', cfg_Env = ''test'', cfg_Host = [] \<rparr>"

definition client0 :: Discovery where
  "client0 = New os0 config0"

definition ins0 :: naming_Instance where
  "ins0 =
     \<lparr> ins_AppID = ''svc'', ins_Addrs = [''http://10.0.0.1:80''], ins_Color = ''red'',
       ins_Version = ''v1'', ins_Metadata = None \<rparr>"

definition reply_ok :: "error + reply" where
  "reply_ok = Inr \<lparr> reply_Code = 0, Message = [] \<rparr>"

text \<open>A client that watches \<open>svc\<close>, and three poll responses for it.\<close>

definition watching0 :: Discovery where
  "watching0 = fst (Watch client0 ''svc'')"

definition host0 :: string where
  "host0 = ''10.0.0.2:7171''"

definition appdata_full :: appData where
  "appdata_full = \<lparr> ZoneInstances = [(''sh1'', [ins0]), (''sh2'', [])], LastTs = 100 \<rparr>"

definition polls_body_full :: polls_res where
  "polls_body_full = \<lparr> polls_Code = 0, polls_Data = [(''svc'', appdata_full)] \<rparr>"

definition polls_res_full :: "error + polls_res" where
  "polls_res_full = Inr polls_body_full"



definition appdata_zero :: appData where
  "appdata_zero = \<lparr> ZoneInstances = [(''sh1'', [ins0])], LastTs = 0 \<rparr>"

definition polls_body_zero :: polls_res where
  "polls_body_zero = \<lparr> polls_Code = 0, polls_Data = [(''svc'', appdata_zero)] \<rparr>"

definition polls_res_zero :: "error + polls_res" where
  "polls_res_zero = Inr polls_body_zero"

text \<open>A client that has registered \<open>ins0\<close>.\<close>

definition registered0 :: Discovery where
  "registered0 = fst (Register ecodes0 marshal0 client0 ins0 reply_ok)"

text \<open>
  The contract of \<open>Int63n\<close> and \<open>Int31n\<close>: for \<open>n > 0\<close> the number drawn is in
  \<open>[0, n)\<close>. \<open>rand0\<close> is a source that keeps it.
\<close>

definition rand_ok :: "'r rand \<Rightarrow> bool" where
  "rand_ok R =
    (\<forall>r n. 0 < n \<longrightarrow>
       0 \<le> fst (Int63n R r n) \<and> fst (Int63n R r n) < n \<and>
       0 \<le> fst (Int31n R r n) \<and> fst (Int31n R r n) < n)"

definition rand0 :: "int rand" where
  "rand0 = \<lparr> Int63n = (\<lambda>r n. (r mod n, 5 * r + 3)), Int31n = (\<lambda>r n. (r mod n, 5 * r + 3)) \<rparr>"

definition loop0 :: loop_state where
  "loop0 = \<lparr> l_retry = 0, l_update = False, l_nodes = [], l_idx = 0, l_ctx = None \<rparr>"

definition loop1 :: loop_state where
  "loop1 = loop0\<lparr>l_nodes := [host0], l_ctx := Some 1\<rparr>"

definition nodes_res0 :: "error + nodes_res" where
  "nodes_res0 = Inr \<lparr> nodes_Code = 0, nodes_Data = [''a:7171'', ''b:7171'', ''c:7171''] \<rparr>"

section \<open>Peer node: properties\<close>







text \<open>
  C1. The claim: \<open>Renew\<close> posts the instance's \<open>AppID\<close>, \<open>Hostname\<close>, \<open>Zone\<close>, \<open>Env\<close>
  and \<open>DirtyTimestamp\<close> to the peer's \<open>/discovery/renew\<close>. The code: the body of
  \<open>Renew\<close> is a bare \<open>return\<close>, so for every node and instance it sends no request,
  carries no form field and returns a nil error, although its comment says that it
  sends the heartbeat and \<open>call\<close> has a branch for the \<open>Renew\<close> action.
\<close>

theorem Renew_sends_no_request:
  "Node_Renew n i = ([], None) \<and> \<not> carries (fst (Node_Renew n i)) key val"
  by (simp add: Node_Renew_def carries_def)





section \<open>Client: properties\<close>

text \<open>
  C7. \<open>Register\<close> of an instance whose \<open>AppID\<close> is already in the registry returns
  \<open>ErrDuplication\<close> and no cancel function, sends no request and leaves the whole
  client as it was.
\<close>

theorem Register_duplicate:
  "ins_AppID ins \<in> registry d \<Longrightarrow> Register E jm d ins res = (d, [], None, Some ErrDuplication)"
  by (simp add: Register_def)

theorem Register_duplicate_witness:
  "ins_AppID ins0 \<in> registry registered0 \<and>
   Register ecodes0 marshal0 registered0 ins0 reply_ok = (registered0, [], None, Some ErrDuplication)"
proof -
  have h: "ins_AppID ins0 \<in> registry registered0"
    by (simp add: registered0_def Register_def register_def reply_err_def reply_ok_def
        ecodes0_def Let_def ins0_def)
  show ?thesis
    using Register_duplicate [OF h, of ecodes0 marshal0 reply_ok] h by simp
qed






lemma polls_range_True:
  "polls_range True as =
     (map (\<lambda>(k, v). (k, v\<lparr>lastTs := 0\<rparr>)) as, map fst as, replicate (length as) 0)"
  by (induction as) (auto simp: Let_def)

lemma polls_range_False:
  "polls_range False as = (as, map fst as, map (\<lambda>(k, v). lastTs v) as)"
  by (induction as) (auto simp: Let_def)





text \<open>
  C5. When at least one app is watched (so that the request is sent), the response has
  the code \<open>OK\<close> and some app in its data has \<open>LastTs = 0\<close>, \<open>polls\<close> returns nil
  \<open>apps\<close> and the error \<open>ServerErr\<close>.
\<close>

theorem polls_zero_LastTs:
  assumes "apps d \<noteq> []" and "res = Inr r" and "polls_Code r = OK E"
    and "(appID, ad) \<in> set (polls_Data r)" and "LastTs ad = 0"
  shows "snd (snd (polls E d host res)) = (None, Some (Ecode (ServerErr E)))"
proof -
  have "list_ex (\<lambda>(appID, app). LastTs app = 0) (polls_Data r)"
    using assms(4,5) by (auto simp: list_ex_iff)
  then show ?thesis
    using assms(1,2,3) by (simp add: polls_def Let_def polls_range_True polls_range_False)
qed

theorem polls_zero_LastTs_witness:
  "apps watching0 \<noteq> [] \<and> polls_res_zero = Inr polls_body_zero \<and>
   polls_Code polls_body_zero = OK ecodes0 \<and>
   snd (snd (polls ecodes0 watching0 host0 polls_res_zero)) = (None, Some (Ecode (- 500)))"
proof -
  have h1: "apps watching0 \<noteq> []"
    by (simp add: watching0_def Watch_def client0_def New_def Let_def)
  have h2: "polls_res_zero = Inr polls_body_zero" by (simp add: polls_res_zero_def)
  have h3: "polls_Code polls_body_zero = OK ecodes0" by (simp add: polls_body_zero_def ecodes0_def)
  have h4: "(''svc'', appdata_zero) \<in> set (polls_Data polls_body_zero)"
    by (simp add: polls_body_zero_def)
  have h5: "LastTs appdata_zero = 0" by (simp add: appdata_zero_def)
  show ?thesis
    using polls_zero_LastTs [OF h1 h2 h3 h4 h5, of host0] h1 h2 h3
    by (simp add: ecodes0_def)
qed














text \<open>
  C9. \<open>Fetch\<close> returns a nil map and \<open>ok = false\<close> when the app is not watched, and
  when it is watched and \<open>zoneIns\<close> is still empty, as it is right after the \<open>Watch\<close>
  that added the app; and whenever \<open>ok\<close> is true the map returned is a stored
  snapshot, not nil.
\<close>

theorem Fetch_not_ok:
  "(map_of (apps d) appID = None \<longrightarrow> Fetch d appID = (None, False)) \<and>
   (\<forall>app. map_of (apps d) appID = Some app \<and> zoneIns app = None \<longrightarrow> Fetch d appID = (None, False)) \<and>
   (map_of (apps d) appID = None \<longrightarrow> Fetch (fst (Watch d appID)) appID = (None, False)) \<and>
   (snd (Fetch d appID) \<longrightarrow> fst (Fetch d appID) \<noteq> None)"
  by (auto simp: Fetch_def Watch_def Let_def update_conv' split: option.splits)

theorem Fetch_not_ok_witness:
  "map_of (apps client0) ''svc'' = None \<and> Fetch client0 ''svc'' = (None, False) \<and>
   map_option zoneIns (map_of (apps watching0) ''svc'') = Some None \<and>
   Fetch watching0 ''svc'' = (None, False) \<and>
   snd (Fetch (fst (projr (serverproc_poll ecodes0 watching0 loop1 polls_res_full))) ''svc'') \<and>
   fst (Fetch (fst (projr (serverproc_poll ecodes0 watching0 loop1 polls_res_full))) ''svc'') \<noteq> None"
proof -
  have h1: "map_of (apps client0) ''svc'' = None" by (simp add: client0_def New_def)
  have h2: "map_of (apps watching0) ''svc'' =
      Some \<lparr> event = 0, event_len = 0, zoneIns = None, lastTs = 0 \<rparr>"
    by (simp add: watching0_def Watch_def client0_def New_def Let_def)
  have h3: "snd (Fetch (fst (projr (serverproc_poll ecodes0 watching0 loop1 polls_res_full))) ''svc'')"
    by (simp add: serverproc_poll_def polls_def polls_res_full_def polls_body_full_def
        appdata_full_def loop1_def loop0_def host0_def watching0_def Watch_def
        client0_def New_def ecodes0_def Let_def Fetch_def send_event_def)
  show ?thesis
    using Fetch_not_ok [of client0 "''svc''"] Fetch_not_ok [of watching0 "''svc''"]
      Fetch_not_ok [of "fst (projr (serverproc_poll ecodes0 watching0 loop1 polls_res_full))" "''svc''"]
      h1 h2 h3
    by (simp add: watching0_def)
qed

section \<open>Shuffle and the server loop: properties\<close>

lemma int32_id: "0 \<le> x \<Longrightarrow> x < 2 ^ 31 \<Longrightarrow> int32 x = x"
  by (simp add: int32_def sint_sbintrunc' signed_take_bit_int_eq_self)

lemma rand_ok_Int31n:
  "rand_ok R \<Longrightarrow> 0 < n \<Longrightarrow> Int31n R r n = (j, r') \<Longrightarrow> 0 \<le> j \<and> j < n"
  unfolding rand_ok_def by (metis fst_conv)

lemma rand_ok_Int63n:
  "rand_ok R \<Longrightarrow> 0 < n \<Longrightarrow> Int63n R r n = (j, r') \<Longrightarrow> 0 \<le> j \<and> j < n"
  unfolding rand_ok_def by (metis fst_conv)

lemma shuffle_loop31_inv:
  assumes ok: "rand_ok R"
    and step: "\<And>a b s. 0 \<le> b \<Longrightarrow> b \<le> a \<Longrightarrow> 0 < a \<Longrightarrow> a \<le> i0 \<Longrightarrow> I s \<Longrightarrow> \<exists>s'. swap a b s = Inr s' \<and> I s'"
  shows "i \<le> i0 \<Longrightarrow> i \<le> 2 ^ 31 - 2 \<Longrightarrow> I s \<Longrightarrow>
         \<exists>r' s'. shuffle_loop31 R swap i r s = Inr (r', s') \<and> I s'"
proof (induction "nat i" arbitrary: i r s)
  case 0
  then show ?case by (simp add: shuffle_loop31.simps)
next
  case (Suc k)
  then have pos: "0 < i" by simp
  obtain j r' where draw: "Int31n R r (int32 (i + 1)) = (j, r')" by force
  have i1: "int32 (i + 1) = i + 1" using pos Suc.prems(2) by (simp add: int32_id)
  have draw': "Int31n R r (i + 1) = (j, r')" using draw i1 by simp
  have "0 < i + 1" using pos by simp
  then have j: "0 \<le> j \<and> j < i + 1"
    using draw' by (rule rand_ok_Int31n [OF ok])
  obtain s' where s': "swap i j s = Inr s'" and I': "I s'"
    using step [of j i s] j pos Suc.prems by auto
  have "k = nat (i - 1)" using Suc.hyps(2) by simp
  then have "\<exists>r'' s''. shuffle_loop31 R swap (i - 1) r' s' = Inr (r'', s'') \<and> I s''"
    using Suc.prems I' by (intro Suc.hyps(1)) simp_all
  then show ?case
    using pos draw s' by (subst shuffle_loop31.simps) simp
qed

lemma shuffle_loop63_inv:
  assumes ok: "rand_ok R"
    and step: "\<And>a b s. 0 \<le> b \<Longrightarrow> b \<le> a \<Longrightarrow> 0 < a \<Longrightarrow> a \<le> i0 \<Longrightarrow> I s \<Longrightarrow> \<exists>s'. swap a b s = Inr s' \<and> I s'"
  shows "i \<le> i0 \<Longrightarrow> I s \<Longrightarrow>
         \<exists>i' r' s'. shuffle_loop63 R swap i r s = Inr (i', r', s') \<and> I s' \<and> i' \<le> i \<and> i' \<le> 2 ^ 31 - 2"
proof (induction "nat i" arbitrary: i r s)
  case 0
  then show ?case by (simp add: shuffle_loop63.simps)
next
  case (Suc k)
  show ?case
  proof (cases "i > 2 ^ 31 - 1 - 1")
    case False
    then show ?thesis using Suc.prems by (simp add: shuffle_loop63.simps)
  next
    case True
    obtain j r' where draw: "Int63n R r (i + 1) = (j, r')" by force
    have "0 < i + 1" using True by simp
    then have j: "0 \<le> j \<and> j < i + 1"
      using draw by (rule rand_ok_Int63n [OF ok])
    obtain s' where s': "swap i j s = Inr s'" and I': "I s'"
      using step [of j i s] j True Suc.prems by auto
    have "k = nat (i - 1)" using Suc.hyps(2) by simp
    then have "\<exists>i' r'' s''. shuffle_loop63 R swap (i - 1) r' s' = Inr (i', r'', s'') \<and> I s'' \<and>
            i' \<le> i - 1 \<and> i' \<le> 2 ^ 31 - 2"
      using Suc.prems I' by (intro Suc.hyps(1)) simp_all
    then obtain i' r'' s'' where
      rec: "shuffle_loop63 R swap (i - 1) r' s' = Inr (i', r'', s'')" "I s''" "i' \<le> i - 1" "i' \<le> 2 ^ 31 - 2"
      by blast
    have "shuffle_loop63 R swap i r s = Inr (i', r'', s'')"
      using True draw s' rec(1) by (subst shuffle_loop63.simps) simp
    then show ?thesis using rec by auto
  qed
qed

lemma shuffle_inv:
  assumes ok: "rand_ok R" and n: "0 \<le> n"
    and step: "\<And>a b s. 0 \<le> b \<Longrightarrow> b \<le> a \<Longrightarrow> 0 < a \<Longrightarrow> a < n \<Longrightarrow> I s \<Longrightarrow> \<exists>s'. swap a b s = Inr s' \<and> I s'"
    and I: "I s"
  shows "\<exists>r' s'. shuffle R n swap r s = Inr (r', s') \<and> I s'"
proof -
  have step': "\<And>a b s. 0 \<le> b \<Longrightarrow> b \<le> a \<Longrightarrow> 0 < a \<Longrightarrow> a \<le> n - 1 \<Longrightarrow> I s \<Longrightarrow> \<exists>s'. swap a b s = Inr s' \<and> I s'"
    using step by simp
  have "\<exists>i' r' s'. shuffle_loop63 R swap (n - 1) r s = Inr (i', r', s') \<and> I s' \<and>
          i' \<le> n - 1 \<and> i' \<le> 2 ^ 31 - 2"
  proof (rule shuffle_loop63_inv [where I = I and ?i0.0 = "n - 1"])
    show "rand_ok R" by (rule ok)
    show "\<exists>s'. swap a b s = Inr s' \<and> I s'"
      if "0 \<le> b" "b \<le> a" "0 < a" "a \<le> n - 1" "I s" for a b s
      using that by (rule step')
    show "n - 1 \<le> n - 1" by simp
    show "I s" by (rule I)
  qed
  then obtain i' r1 s1 where
    l63: "shuffle_loop63 R swap (n - 1) r s = Inr (i', r1, s1)" and I1: "I s1"
    and le: "i' \<le> n - 1" and small: "i' \<le> 2 ^ 31 - 2"
    by blast
  have "\<exists>r' s'. shuffle_loop31 R swap i' r1 s1 = Inr (r', s') \<and> I s'"
  proof (rule shuffle_loop31_inv [where I = I and ?i0.0 = "n - 1"])
    show "rand_ok R" by (rule ok)
    show "\<exists>s'. swap a b s = Inr s' \<and> I s'"
      if "0 \<le> b" "b \<le> a" "0 < a" "a \<le> n - 1" "I s" for a b s
      using that by (rule step')
    show "i' \<le> n - 1" by (rule le)
    show "i' \<le> 2 ^ 31 - 2" by (rule small)
    show "I s1" by (rule I1)
  qed
  then obtain r2 s2 where l31: "shuffle_loop31 R swap i' r1 s1 = Inr (r2, s2)" and I2: "I s2"
    by blast
  show ?thesis
    using n l63 l31 I2 by (simp add: shuffle_def)
qed

lemma swap_nodes_mset:
  "0 \<le> b \<Longrightarrow> b \<le> a \<Longrightarrow> a < int (length ns0) \<Longrightarrow> mset ns = mset ns0 \<Longrightarrow>
   \<exists>ns'. swap_nodes a b ns = Inr ns' \<and> mset ns' = mset ns0"
proof -
  assume a: "0 \<le> b" "b \<le> a" "a < int (length ns0)" "mset ns = mset ns0"
  have len: "length ns = length ns0" using a(4) by (rule mset_eq_length)
  have "nat a < length ns" "nat b < length ns" using a len by auto
  then have "mset (ns[nat a := ns ! nat b, nat b := ns ! nat a]) = mset ns"
    by (simp add: mset_swap)
  then show ?thesis using a len by (simp add: swap_nodes_def)
qed

lemma shuffle_nodes:
  assumes "rand_ok R"
  shows "\<exists>r' ns'. shuffle R (int (length ns)) swap_nodes r ns = Inr (r', ns') \<and> mset ns' = mset ns"
proof (rule shuffle_inv [where I = "\<lambda>s. mset s = mset ns"])
  show "rand_ok R" by (rule assms)
  show "0 \<le> int (length ns)" by simp
  show "\<exists>s'. swap_nodes a b s = Inr s' \<and> mset s' = mset ns"
    if "0 \<le> b" "b \<le> a" "0 < a" "a < int (length ns)" "mset s = mset ns" for a b s
    using that(1,2,4,5) by (rule swap_nodes_mset)
  show "mset ns = mset ns" by simp
qed

lemma shuffle_record:
  assumes "rand_ok R" and "0 \<le> n"
  shows "\<exists>r' calls. shuffle R n record_swap r [] = Inr (r', calls) \<and>
           (\<forall>(i, j) \<in> set calls. 0 \<le> j \<and> j \<le> i \<and> i < n)"
proof (rule shuffle_inv [where I = "\<lambda>calls. \<forall>(i, j) \<in> set calls. 0 \<le> j \<and> j \<le> i \<and> i < n"])
  show "rand_ok R" by (rule assms)
  show "0 \<le> n" by (rule assms)
  show "\<exists>s'. record_swap a b s = Inr s' \<and> (\<forall>(i, j) \<in> set s'. 0 \<le> j \<and> j \<le> i \<and> i < n)"
    if "0 \<le> b" "b \<le> a" "0 < a" "a < n" "\<forall>(i, j) \<in> set s. 0 \<le> j \<and> j \<le> i \<and> i < n" for a b s
    using that by (auto simp: record_swap_def)
  show "\<forall>(i, j) \<in> set []. 0 \<le> j \<and> j \<le> i \<and> i < n" by simp
qed

lemma shuffle_negative: "n < 0 \<Longrightarrow> shuffle R n swap r s = Inl InvalidArgument"
  by (simp add: shuffle_def)

lemma rand0_ok: "rand_ok rand0"
  by (simp add: rand_ok_def rand0_def)

lemma serverproc_refresh_ok:
  assumes "rand_ok R"
  shows "case serverproc_refresh E R d l r nres of
           Inl p \<Rightarrow> False
         | Inr (cont, l', r', reqs) \<Rightarrow>
             if length (l_nodes l) = 0 \<or> l_update l then
               (if snd (nodes E d nres) = [] then cont \<and> l_nodes l' = l_nodes l
                else \<not> cont \<and> mset (l_nodes l') = mset (snd (nodes E d nres)))
             else \<not> cont \<and> l' = l \<and> r' = r"
proof -
  obtain req tnodes where nd: "nodes E d nres = (req, tnodes)" by force
  obtain r' ns' where sh: "shuffle R (int (length tnodes)) swap_nodes r tnodes = Inr (r', ns')"
    and ms: "mset ns' = mset tnodes"
    using shuffle_nodes [OF assms, where ns = tnodes and r = r] by blast
  show ?thesis
    using nd sh ms by (simp add: serverproc_refresh_def Let_def)
qed

lemma serverproc_poll_ok:
  "l_nodes l \<noteq> [] \<Longrightarrow> \<not> isl (serverproc_poll E d l pres)"
  by (simp add: serverproc_poll_def Let_def split: prod.splits option.splits)

lemma serverproc_body_ok:
  assumes "rand_ok R"
  shows "\<not> isl (serverproc_body E R d l r nres pres)"
proof -
  have refresh: "case serverproc_refresh E R d l r nres of
           Inl p \<Rightarrow> False
         | Inr (cont, l', r', reqs) \<Rightarrow> \<not> cont \<longrightarrow> l_nodes l' \<noteq> []"
    using serverproc_refresh_ok [OF assms, where E = E and d = d and l = l and r = r and nres = nres]
    by (auto split: sum.splits if_splits)
  show ?thesis
  proof (cases "serverproc_refresh E R d l r nres")
    case (Inl p)
    then show ?thesis using refresh by simp
  next
    case (Inr x)
    obtain cont l' r' reqs where x: "x = (cont, l', r', reqs)" by (cases x)
    show ?thesis
    proof (cases cont)
      case True
      then show ?thesis using Inr x by (simp add: serverproc_body_def)
    next
      case False
      then have "l_nodes l' \<noteq> []" using refresh Inr x by simp
      then have "\<not> isl (serverproc_poll E d l' pres)" by (rule serverproc_poll_ok)
      then show ?thesis
        using Inr x False by (auto simp: serverproc_body_def split: sum.splits)
    qed
  qed
qed

lemma serverproc_iter_ok:
  assumes "rand_ok R"
  shows "\<not> isl (serverproc_iter E R d l r tick pick nres pres)"
  by (simp add: serverproc_iter_def Let_def serverproc_body_ok [OF assms]
      split: prod.splits select_case.splits)

lemma shuffle_loop31_replay:
  "\<exists>r' new. shuffle_loop31 R record_swap i r cs = Inr (r', cs @ new) \<and>
     (\<forall>swap s. shuffle_loop31 R swap i r (s :: 's) =
        (case apply_swaps swap new s of Inl p \<Rightarrow> Inl p | Inr s' \<Rightarrow> Inr (r', s')))"
proof (induction "nat i" arbitrary: i r cs)
  case 0
  then show ?case by (simp add: shuffle_loop31.simps)
next
  case (Suc k)
  then have pos: "0 < i" by simp
  obtain j r1 where draw: "Int31n R r (int32 (i + 1)) = (j, r1)" by force
  have "k = nat (i - 1)" using Suc.hyps(2) by simp
  then obtain r' new where
    rec: "shuffle_loop31 R record_swap (i - 1) r1 (cs @ [(i, j)]) = Inr (r', (cs @ [(i, j)]) @ new)"
    and rep: "\<And>swap (s :: 's). shuffle_loop31 R swap (i - 1) r1 s =
        (case apply_swaps swap new s of Inl p \<Rightarrow> Inl p | Inr s' \<Rightarrow> Inr (r', s'))"
    using Suc.hyps(1) [of "i - 1" r1 "cs @ [(i, j)]"] by blast
  have a: "shuffle_loop31 R record_swap i r cs = Inr (r', cs @ (i, j) # new)"
    using pos draw rec by (subst shuffle_loop31.simps) (simp add: record_swap_def)
  have b: "shuffle_loop31 R swap i r s =
        (case apply_swaps swap ((i, j) # new) s of Inl p \<Rightarrow> Inl p | Inr s' \<Rightarrow> Inr (r', s'))"
    for swap and s :: 's
    using pos draw rep [of swap] by (subst shuffle_loop31.simps) (simp split: sum.splits)
  show ?case using a b by blast
qed

lemma apply_swaps_append:
  "apply_swaps swap (xs @ ys) s =
     (case apply_swaps swap xs s of Inl p \<Rightarrow> Inl p | Inr s' \<Rightarrow> apply_swaps swap ys s')"
  by (induction xs arbitrary: s) (auto split: sum.splits)

lemma shuffle_loop63_replay:
  "\<exists>i' r' new. shuffle_loop63 R record_swap i r cs = Inr (i', r', cs @ new) \<and>
     (\<forall>swap s. shuffle_loop63 R swap i r (s :: 's) =
        (case apply_swaps swap new s of Inl p \<Rightarrow> Inl p | Inr s' \<Rightarrow> Inr (i', r', s')))"
proof (induction "nat i" arbitrary: i r cs)
  case 0
  then show ?case by (simp add: shuffle_loop63.simps)
next
  case (Suc k)
  show ?case
  proof (cases "i > 2 ^ 31 - 1 - 1")
    case False
    then show ?thesis by (simp add: shuffle_loop63.simps)
  next
    case True
    obtain j r1 where draw: "Int63n R r (i + 1) = (j, r1)" by force
    have "k = nat (i - 1)" using Suc.hyps(2) by simp
    then obtain i' r' new where
      rec: "shuffle_loop63 R record_swap (i - 1) r1 (cs @ [(i, j)]) = Inr (i', r', (cs @ [(i, j)]) @ new)"
      and rep: "\<And>swap (s :: 's). shuffle_loop63 R swap (i - 1) r1 s =
          (case apply_swaps swap new s of Inl p \<Rightarrow> Inl p | Inr s' \<Rightarrow> Inr (i', r', s'))"
      using Suc.hyps(1) [of "i - 1" r1 "cs @ [(i, j)]"] by blast
    have a: "shuffle_loop63 R record_swap i r cs = Inr (i', r', cs @ (i, j) # new)"
      using True draw rec by (subst shuffle_loop63.simps) (simp add: record_swap_def)
    have b: "shuffle_loop63 R swap i r s =
          (case apply_swaps swap ((i, j) # new) s of Inl p \<Rightarrow> Inl p | Inr s' \<Rightarrow> Inr (i', r', s'))"
      for swap and s :: 's
      using True draw rep [of swap] by (subst shuffle_loop63.simps) (simp split: sum.splits)
    show ?thesis using a b by blast
  qed
qed

lemma shuffle_replay:
  "shuffle R n swap r (s :: 's) =
     (case shuffle R n record_swap r [] of
        Inl p \<Rightarrow> Inl p
      | Inr (r', calls) \<Rightarrow>
          (case apply_swaps swap calls s of Inl p \<Rightarrow> Inl p | Inr s' \<Rightarrow> Inr (r', s')))"
proof (cases "n < 0")
  case True
  then show ?thesis by (simp add: shuffle_def)
next
  case False
  obtain i' r1 new1 where
    a1: "shuffle_loop63 R record_swap (n - 1) r [] = Inr (i', r1, [] @ new1)"
    and b1: "\<And>swap (s :: 's). shuffle_loop63 R swap (n - 1) r s =
        (case apply_swaps swap new1 s of Inl p \<Rightarrow> Inl p | Inr s' \<Rightarrow> Inr (i', r1, s'))"
    using shuffle_loop63_replay [where 's = 's, of R "n - 1" r "[]"] by blast
  obtain r2 new2 where
    a2: "shuffle_loop31 R record_swap i' r1 new1 = Inr (r2, new1 @ new2)"
    and b2: "\<And>swap (s :: 's). shuffle_loop31 R swap i' r1 s =
        (case apply_swaps swap new2 s of Inl p \<Rightarrow> Inl p | Inr s' \<Rightarrow> Inr (r2, s'))"
    using shuffle_loop31_replay [where 's = 's, of R i' r1 new1] by blast
  have rec: "shuffle R n record_swap r [] = Inr (r2, new1 @ new2)"
    using False a1 a2 by (simp add: shuffle_def)
  have gen: "shuffle R n swap r s =
      (case apply_swaps swap new1 s of
         Inl p \<Rightarrow> Inl p
       | Inr s1 \<Rightarrow> (case apply_swaps swap new2 s1 of Inl p \<Rightarrow> Inl p | Inr s' \<Rightarrow> Inr (r2, s')))"
    using False b1 [of swap s] b2 [of swap] by (simp add: shuffle_def split: sum.splits)
  show ?thesis
    by (simp add: rec gen apply_swaps_append split: sum.splits)
qed

text \<open>
  C10. With a random source that keeps the contract of \<open>Int63n\<close> and \<open>Int31n\<close>:
  \<open>shuffle\<close> panics exactly when \<open>n < 0\<close> (for a \<open>swap\<close> that does not panic);
  every call of \<open>swap\<close> is on a pair \<open>(i, j)\<close> with \<open>0 \<le> j \<le> i < n\<close>, and
  \<open>shuffle\<close> does nothing but these calls, in order, whatever the \<open>swap\<close>; on the node
  list, with \<open>n\<close> its length, it returns a permutation of the list; the refresh of the
  server loop does not panic and, when \<open>/discovery/nodes\<close> returns addresses, leaves in
  \<open>nodes\<close> a permutation of them; and no iteration of the server loop panics.
\<close>

theorem shuffle_permutation:
  assumes "rand_ok R"
  shows "isl (shuffle R n record_swap r calls) = (n < 0) \<and>
         (case shuffle R n record_swap r [] of
            Inl p \<Rightarrow> n < 0
          | Inr (r', calls') \<Rightarrow> \<forall>(i, j) \<in> set calls'. 0 \<le> j \<and> j \<le> i \<and> i < n) \<and>
         shuffle R n swap r s =
           (case shuffle R n record_swap r [] of
              Inl p \<Rightarrow> Inl p
            | Inr (r', calls') \<Rightarrow>
                (case apply_swaps swap calls' s of Inl p \<Rightarrow> Inl p | Inr s' \<Rightarrow> Inr (r', s'))) \<and>
         (case shuffle R (int (length ns)) swap_nodes r ns of
            Inl p \<Rightarrow> False
          | Inr (r', ns') \<Rightarrow> mset ns' = mset ns) \<and>
         (case serverproc_refresh E R d l r nres of
            Inl p \<Rightarrow> False
          | Inr (cont, l', r', reqs) \<Rightarrow>
              if length (l_nodes l) = 0 \<or> l_update l then
                (if snd (nodes E d nres) = [] then cont \<and> l_nodes l' = l_nodes l
                 else \<not> cont \<and> mset (l_nodes l') = mset (snd (nodes E d nres)))
              else \<not> cont \<and> l' = l \<and> r' = r) \<and>
         \<not> isl (serverproc_iter E R d l r tick pick nres pres)"
proof -
  have rec: "\<exists>r' c'. shuffle R n record_swap r c = Inr (r', c') \<and> True" if "0 \<le> n" for c
    using assms that by (rule shuffle_inv [where I = "\<lambda>s. True"]) (simp_all add: record_swap_def)
  have a: "isl (shuffle R n record_swap r calls) = (n < 0)"
  proof (cases "n < 0")
    case True
    then show ?thesis by (simp add: shuffle_negative)
  next
    case False
    then show ?thesis using rec [of calls] by auto
  qed
  have b: "case shuffle R n record_swap r [] of
            Inl p \<Rightarrow> n < 0
          | Inr (r', calls') \<Rightarrow> \<forall>(i, j) \<in> set calls'. 0 \<le> j \<and> j \<le> i \<and> i < n"
  proof (cases "n < 0")
    case True
    then show ?thesis by (simp add: shuffle_negative)
  next
    case False
    then show ?thesis using shuffle_record [OF assms, where n = n and r = r] by auto
  qed
  have c: "case shuffle R (int (length ns)) swap_nodes r ns of
            Inl p \<Rightarrow> False
          | Inr (r', ns') \<Rightarrow> mset ns' = mset ns"
    using shuffle_nodes [OF assms, where ns = ns and r = r] by auto
  have e: "shuffle R n swap r s =
           (case shuffle R n record_swap r [] of
              Inl p \<Rightarrow> Inl p
            | Inr (r', calls') \<Rightarrow>
                (case apply_swaps swap calls' s of Inl p \<Rightarrow> Inl p | Inr s' \<Rightarrow> Inr (r', s')))"
    by (rule shuffle_replay)
  note f = serverproc_refresh_ok [OF assms, where E = E and d = d and l = l and r = r and nres = nres]
  note g = serverproc_iter_ok [OF assms, where E = E and d = d and l = l and r = r
      and tick = tick and pick = pick and nres = nres and pres = pres]
  show ?thesis
    using a b c e f g by (intro conjI)
qed

theorem shuffle_permutation_witness:
  "rand_ok rand0 \<and>
   shuffle rand0 5 record_swap 7 [] = Inr (4843, [(4, 2), (3, 2), (2, 1), (1, 0)]) \<and>
   isl (shuffle rand0 (- 1) record_swap 7 []) \<and>
   \<not> isl (shuffle rand0 3 swap_nodes 7 [''a:7171'', ''b:7171'', ''c:7171'']) \<and>
   mset (snd (projr (shuffle rand0 3 swap_nodes 7 [''a:7171'', ''b:7171'', ''c:7171''])))
     = mset [''a:7171'', ''b:7171'', ''c:7171''] \<and>
   \<not> isl (serverproc_refresh ecodes0 rand0 watching0 loop0 7 nodes_res0) \<and>
   mset (l_nodes (fst (snd (projr (serverproc_refresh ecodes0 rand0 watching0 loop0 7 nodes_res0)))))
     = mset [''a:7171'', ''b:7171'', ''c:7171'']"
proof -
  have ok: "rand_ok rand0" by (simp add: rand_ok_def rand0_def)
  have ev: "shuffle rand0 5 record_swap 7 [] = Inr (4843, [(4, 2), (3, 2), (2, 1), (1, 0)])"
    by (simp add: shuffle_def shuffle_loop63.simps shuffle_loop31.simps rand0_def record_swap_def
        int32_def)
  have nd: "snd (nodes ecodes0 watching0 nodes_res0) = [''a:7171'', ''b:7171'', ''c:7171'']"
    by (simp add: nodes_def nodes_res0_def ecodes0_def Let_def)
  have l0: "length (l_nodes loop0) = 0" by (simp add: loop0_def)
  show ?thesis
    using shuffle_permutation [OF ok, where n = "- 1" and r = 7 and calls = "[]"
        and ns = "[''a:7171'', ''b:7171'', ''c:7171'']" and E = ecodes0 and d = watching0
        and l = loop0 and nres = nodes_res0 and tick = False and pick = Case_Default
        and pres = polls_res_full and swap = swap_nodes and s = "[''a:7171'', ''b:7171'', ''c:7171'']"]
      ok ev nd l0
    by (auto split: sum.splits)
qed

end
